theory Spec2Isabelle
  imports Complex_Main "HOL-Library.AList" "HOL-Library.Word"
begin

section \<open>JavaScript values\<close>

text \<open>
  The relay in \<^verbatim>\<open>server.js\<close> handles loosely typed request fields. A JavaScript number
  is either NaN, an infinity or a finite double, kept as the rational it denotes (the two
  zeros are identified). A string is a list of code units below 256.
  A request field is a primitive value; \<open>undefined\<close> is the \<open>None\<close> of an option.
  A JSON document is a primitive or an object, kept as an association list.
\<close>

datatype jsnum = NaN | Fin rat | PosInf | NegInf

datatype jsval = VNull | VBool bool | VNum jsnum | VStr string

datatype json = Prim jsval | Obj "(string \<times> json) list"

fun truthy :: "jsval \<Rightarrow> bool" where
  "truthy VNull = False"
| "truthy (VBool b) = b"
| "truthy (VNum n) = (n \<noteq> NaN \<and> n \<noteq> Fin 0)"
| "truthy (VStr s) = (s \<noteq> [])"

subsection \<open>Number(v)\<close>

text \<open>
  \<^verbatim>\<open>Number(v)\<close> on a string follows the StringNumericLiteral grammar of ECMAScript:
  surrounding white space is dropped, the empty string is 0, a decimal literal may carry a
  sign, a fraction and an exponent, \<^verbatim>\<open>Infinity\<close> may carry a sign, and the prefixes
  \<^verbatim>\<open>0x\<close>, \<^verbatim>\<open>0o\<close>, \<^verbatim>\<open>0b\<close> introduce unsigned integers. Everything else is NaN.
  White space below 256 is tab, line feed, vertical tab, form feed, carriage return,
  space and the no-break space.

  The mathematical value of a literal is rounded to the nearest double, ties to even:
  with 53 bits of precision above \<open>2 ^ - 1022\<close>, in steps of \<open>2 ^ - 1074\<close> below, and
  to an infinity from \<open>2 ^ 1024\<close> on. \<open>ilog2 a\<close> is the exponent \<open>e\<close> of a positive
  \<open>a\<close>, with \<open>2 ^ e \<le> a < 2 ^ (e + 1)\<close>.
\<close>

function bit_length :: "int \<Rightarrow> int" where
  "bit_length n = (if n \<le> 0 then 0 else bit_length (n div 2) + 1)"
  by pat_completeness auto
termination
proof (relation "measure nat")
  show "wf (measure nat)" by simp
next
  fix n :: int
  assume pos: "\<not> n \<le> 0"
  then have "n div 2 < n" by simp
  with pos show "(n div 2, n) \<in> measure nat" by simp
qed

declare bit_length.simps [simp del]

definition pow2 :: "int \<Rightarrow> rat" where
  "pow2 e = (if 0 \<le> e then 2 ^ nat e else 1 / 2 ^ nat (- e))"

definition ilog2 :: "rat \<Rightarrow> int" where
  "ilog2 a =
     (let k = bit_length (fst (quotient_of a)) - bit_length (snd (quotient_of a))
      in if pow2 k \<le> a then k else k - 1)"

definition round_half_even :: "rat \<Rightarrow> int" where
  "round_half_even x =
     (let f = \<lfloor>x\<rfloor>; d = x - of_int f
      in if d < 1 / 2 then f else if 1 / 2 < d then f + 1 else if even f then f else f + 1)"

definition to_double :: "rat \<Rightarrow> jsnum" where
  "to_double q =
     (if q = 0 then Fin 0
      else let a = \<bar>q\<bar>;
               p = max (ilog2 a) (- 1022) - 52;
               r = of_int (round_half_even (a / pow2 p)) * pow2 p
           in if 1024 \<le> ilog2 r then (if q < 0 then NegInf else PosInf)
              else Fin (if q < 0 then - r else r))"

definition is_ws :: "char \<Rightarrow> bool" where
  "is_ws c = (of_char c \<in> {9, 10, 11, 12, 13, 32, 160 :: nat})"

definition trim :: "string \<Rightarrow> string" where
  "trim s = rev (dropWhile is_ws (rev (dropWhile is_ws s)))"

definition digit_in :: "nat \<Rightarrow> char \<Rightarrow> nat option" where
  "digit_in base c =
     (let n = of_char c;
          d = (if 48 \<le> n \<and> n \<le> 57 then n - 48
               else if 97 \<le> n \<and> n \<le> 102 then n - 87
               else if 65 \<le> n \<and> n \<le> 70 then n - 55
               else 16)
      in if d < base then Some d else None)"

definition all_digits :: "nat \<Rightarrow> string \<Rightarrow> bool" where
  "all_digits base s = (s \<noteq> [] \<and> list_all (\<lambda>c. digit_in base c \<noteq> None) s)"

definition digits_val :: "nat \<Rightarrow> string \<Rightarrow> int" where
  "digits_val base s =
     foldl (\<lambda>a c. int base * a + (case digit_in base c of Some d \<Rightarrow> int d | None \<Rightarrow> 0)) 0 s"

definition is_exp_char :: "char \<Rightarrow> bool" where
  "is_exp_char c = (c = CHR ''e'' \<or> c = CHR ''E'')"

definition mantissa :: "string \<Rightarrow> rat option" where
  "mantissa m =
     (let ip = takeWhile (\<lambda>c. c \<noteq> CHR ''.'') m;
          dot = dropWhile (\<lambda>c. c \<noteq> CHR ''.'') m;
          fp = tl dot;
          frac = (if fp = [] then 0 else of_int (digits_val 10 fp) / 10 ^ length fp)
      in if dot = [] then (if all_digits 10 ip then Some (of_int (digits_val 10 ip)) else None)
         else if ip = [] then (if all_digits 10 fp then Some frac else None)
         else if all_digits 10 ip \<and> (fp = [] \<or> all_digits 10 fp)
           then Some (of_int (digits_val 10 ip) + frac)
         else None)"

definition exponent :: "string \<Rightarrow> int option" where
  "exponent r =
     (case r of
        [] \<Rightarrow> Some 0
      | _ # ds \<Rightarrow>
          (case ds of
             [] \<Rightarrow> None
           | c # cs \<Rightarrow>
               if c = CHR ''-'' then (if all_digits 10 cs then Some (- digits_val 10 cs) else None)
               else if c = CHR ''+'' then (if all_digits 10 cs then Some (digits_val 10 cs) else None)
               else if all_digits 10 ds then Some (digits_val 10 ds) else None))"

definition pow10 :: "int \<Rightarrow> rat" where
  "pow10 e = (if 0 \<le> e then 10 ^ nat e else 1 / 10 ^ nat (- e))"

definition StrUnsignedDecimalLiteral :: "string \<Rightarrow> jsnum" where
  "StrUnsignedDecimalLiteral s =
     (if s = ''Infinity'' then PosInf
      else case mantissa (takeWhile (\<lambda>c. \<not> is_exp_char c) s) of
             None \<Rightarrow> NaN
           | Some q \<Rightarrow>
               (case exponent (dropWhile (\<lambda>c. \<not> is_exp_char c) s) of
                  None \<Rightarrow> NaN
                | Some e \<Rightarrow> to_double (q * pow10 e)))"

fun negate :: "jsnum \<Rightarrow> jsnum" where
  "negate NaN = NaN"
| "negate (Fin q) = Fin (- q)"
| "negate PosInf = NegInf"
| "negate NegInf = PosInf"

definition NonDecimalIntegerLiteral :: "string \<Rightarrow> jsnum option" where
  "NonDecimalIntegerLiteral s =
     (case s of
        z # p # ds \<Rightarrow>
          (if z \<noteq> CHR ''0'' then None
           else let base = (if p = CHR ''x'' \<or> p = CHR ''X'' then 16
                            else if p = CHR ''o'' \<or> p = CHR ''O'' then 8
                            else if p = CHR ''b'' \<or> p = CHR ''B'' then 2 else 0)
                in if base = 0 then None
                   else if all_digits base ds then Some (to_double (of_int (digits_val base ds)))
                   else Some NaN)
      | _ \<Rightarrow> None)"

definition StringToNumber :: "string \<Rightarrow> jsnum" where
  "StringToNumber str =
     (let s = trim str
      in case s of
           [] \<Rightarrow> Fin 0
         | c # cs \<Rightarrow>
             (case NonDecimalIntegerLiteral s of
                Some n \<Rightarrow> n
              | None \<Rightarrow>
                  if c = CHR ''-'' then negate (StrUnsignedDecimalLiteral cs)
                  else if c = CHR ''+'' then StrUnsignedDecimalLiteral cs
                  else StrUnsignedDecimalLiteral s))"

fun Number :: "jsval \<Rightarrow> jsnum" where
  "Number VNull = Fin 0"
| "Number (VBool b) = (if b then Fin 1 else Fin 0)"
| "Number (VNum n) = n"
| "Number (VStr s) = StringToNumber s"

subsection \<open>Math.max and Math.min\<close>

fun Math_max :: "jsnum \<Rightarrow> jsnum \<Rightarrow> jsnum" where
  "Math_max NaN _ = NaN"
| "Math_max _ NaN = NaN"
| "Math_max PosInf _ = PosInf"
| "Math_max _ PosInf = PosInf"
| "Math_max NegInf y = y"
| "Math_max x NegInf = x"
| "Math_max (Fin a) (Fin b) = Fin (max a b)"

fun Math_min :: "jsnum \<Rightarrow> jsnum \<Rightarrow> jsnum" where
  "Math_min NaN _ = NaN"
| "Math_min _ NaN = NaN"
| "Math_min NegInf _ = NegInf"
| "Math_min _ NegInf = NegInf"
| "Math_min PosInf y = y"
| "Math_min x PosInf = x"
| "Math_min (Fin a) (Fin b) = Fin (min a b)"

fun is_integer :: "jsnum \<Rightarrow> bool" where
  "is_integer (Fin q) = (of_int \<lfloor>q\<rfloor> = q)"
| "is_integer _ = False"

fun in_range :: "rat \<Rightarrow> rat \<Rightarrow> jsnum \<Rightarrow> bool" where
  "in_range lo hi (Fin q) = (lo \<le> q \<and> q \<le> hi)"
| "in_range lo hi _ = False"

section \<open>Job submission\<close>

subsection \<open>Uploaded files and data URIs\<close>

text \<open>
  An uploaded file as the multipart adapter hands it over: a MIME type and the bytes.
  \<^verbatim>\<open>buffer.toString("base64")\<close> is the standard base64 encoding with padding.
\<close>

record upload_file =
  mimetype :: string
  buffer :: "8 word list"

definition b64chars :: string where
  "b64chars = ''ABCDEFGHIJKLMNOPQRSTUVWXYZabcdefghijklmnopqrstuvwxyz0123456789+/''"

definition b64 :: "nat \<Rightarrow> char" where
  "b64 n = b64chars ! (n mod 64)"

fun base64 :: "nat list \<Rightarrow> string" where
  "base64 [] = []"
| "base64 [a] =
     (let n = a * 65536 in [b64 (n div 262144), b64 (n div 4096), CHR ''='', CHR ''=''])"
| "base64 [a, b] =
     (let n = a * 65536 + b * 256
      in [b64 (n div 262144), b64 (n div 4096), b64 (n div 64), CHR ''=''])"
| "base64 (a # b # c # r) =
     (let n = a * 65536 + b * 256 + c
      in [b64 (n div 262144), b64 (n div 4096), b64 (n div 64), b64 n] @ base64 r)"

definition data_uri :: "string \<Rightarrow> upload_file \<Rightarrow> string" where
  "data_uri dflt f =
     ''data:'' @ (if mimetype f = [] then dflt else mimetype f) @ '';base64,''
       @ base64 (map unat (buffer f))"

subsection \<open>Replies and the upstream call\<close>

text \<open>
  A handler's outcome is the list of payloads it posted to the provider (none or one)
  and the reply it sent: a status code and a JSON body. The provider is a parameter:
  it answers a payload with its response data (\<open>Inr\<close>) or fails (\<open>Inl\<close>, carrying
  \<^verbatim>\<open>err.response?.data || err.message\<close>).
\<close>

datatype reply = Reply nat json

definition error_body :: "json \<Rightarrow> json" where
  "error_body e = Obj [(''error'', e)]"

definition relay :: "('p \<Rightarrow> json + json) \<Rightarrow> 'p \<Rightarrow> 'p list \<times> reply" where
  "relay post p =
     (case post p of
        Inr d \<Rightarrow> ([p], Reply 200 d)
      | Inl e \<Rightarrow> ([p], Reply 500 (error_body e)))"

subsection \<open>POST /image-to-3d\<close>

text \<open>
  The request carries an optional uploaded file (\<^verbatim>\<open>req.file\<close>) and an optional body
  object (\<^verbatim>\<open>req.body\<close>), whose keys are listed in \<^verbatim>\<open>Object.keys\<close> order.
  The payload is a plain object built by assignments; \<^verbatim>\<open>payload[k] = v\<close> creates or
  overwrites the property \<open>k\<close>, except for the key \<^verbatim>\<open>__proto__\<close>, where the assignment
  reaches the inherited setter and a primitive \<open>v\<close> adds no property.
\<close>

record meshy_request =
  req_file :: "upload_file option"
  req_body :: "(string \<times> jsval) list option"

definition booleanFields :: "string list" where
  "booleanFields = [''should_remesh'', ''should_texture'', ''enable_pbr'', ''is_a_t_pose'', ''moderation'']"

definition numberFields :: "string list" where
  "numberFields = [''target_polycount'']"

definition image_source :: "meshy_request \<Rightarrow> jsval option" where
  "image_source req =
     (case req_file req of
        Some f \<Rightarrow> Some (VStr (data_uri ''image/png'' f))
      | None \<Rightarrow>
          (case req_body req of
             None \<Rightarrow> None
           | Some b \<Rightarrow>
               (case map_of b ''image_url'' of
                  None \<Rightarrow> None
                | Some u \<Rightarrow> if truthy u then Some u else None)))"

definition coerce :: "string \<Rightarrow> jsval \<Rightarrow> jsval" where
  "coerce k v =
     (if k \<in> set booleanFields then VBool (v = VStr ''true'' \<or> v = VBool True)
      else if k \<in> set numberFields then VNum (Number v)
      else v)"

definition assign :: "string \<Rightarrow> jsval \<Rightarrow> (string \<times> jsval) list \<Rightarrow> (string \<times> jsval) list" where
  "assign k v payload = (if k = ''__proto__'' then payload else AList.update k v payload)"

definition coercion_loop ::
  "(string \<times> jsval) list \<Rightarrow> (string \<times> jsval) list \<Rightarrow> (string \<times> jsval) list" where
  "coercion_loop b payload =
     fold (\<lambda>k p. case map_of b k of None \<Rightarrow> p | Some v \<Rightarrow> assign k (coerce k v) p)
       (map fst b) payload"

definition default_texture :: "(string \<times> jsval) list \<Rightarrow> (string \<times> jsval) list" where
  "default_texture payload =
     (if map_of payload ''should_texture'' = None
      then AList.update ''should_texture'' (VBool True) payload else payload)"

definition meshy_payload :: "jsval \<Rightarrow> (string \<times> jsval) list \<Rightarrow> (string \<times> jsval) list" where
  "meshy_payload img b = default_texture (coercion_loop b [(''image_url'', img)])"

definition keys_type_error :: json where
  "keys_type_error = Prim (VStr ''Cannot convert undefined or null to object'')"

definition image_to_3d ::
  "((string \<times> jsval) list \<Rightarrow> json + json) \<Rightarrow> meshy_request
     \<Rightarrow> (string \<times> jsval) list list \<times> reply" where
  "image_to_3d post req =
     (case image_source req of
        None \<Rightarrow> ([], Reply 400 (error_body (Prim (VStr ''Provide an image file or image_url''))))
      | Some img \<Rightarrow>
          (case req_body req of
             None \<Rightarrow> ([], Reply 500 (error_body keys_type_error))
           | Some b \<Rightarrow> relay post (meshy_payload img b)))"

subsection \<open>POST /fashn/tryon\<close>

text \<open>
  \<^verbatim>\<open>req.files?.person?.[0]\<close> is the first file of a possibly missing list; the body
  holds the text fields. The payload is an object literal with a fixed set of keys.
\<close>

record fashn_request =
  person :: "upload_file list"
  garment :: "upload_file list"
  fashn_body :: "(string \<times> jsval) list"

definition bool :: "jsval option \<Rightarrow> bool \<Rightarrow> bool" where
  "bool v d =
     (if v = Some (VStr ''true'') \<or> v = Some (VBool True) then True
      else if v = Some (VStr ''false'') \<or> v = Some (VBool False) then False
      else d)"

definition num :: "jsval option \<Rightarrow> jsnum option" where
  "num v = (case v of None \<Rightarrow> None | Some x \<Rightarrow> Some (Number x))"

definition or_else :: "jsval option \<Rightarrow> string \<Rightarrow> json" where
  "or_else v d = (case v of Some x \<Rightarrow> if truthy x then Prim x else Prim (VStr d) | None \<Rightarrow> Prim (VStr d))"

definition nullish :: "jsnum option \<Rightarrow> jsnum \<Rightarrow> jsnum" where
  "nullish v d = (case v of None \<Rightarrow> d | Some n \<Rightarrow> n)"

definition num_samples :: "(string \<times> jsval) list \<Rightarrow> jsnum" where
  "num_samples b = Math_min (Math_max (nullish (num (map_of b ''num_samples'')) (Fin 1)) (Fin 1)) (Fin 4)"

definition fashn_payload ::
  "upload_file \<Rightarrow> upload_file \<Rightarrow> (string \<times> jsval) list \<Rightarrow> (string \<times> json) list" where
  "fashn_payload personFile garmentFile b =
     [(''model_name'', Prim (VStr ''tryon-v1.6'')),
      (''inputs'', Obj [(''model_image'', Prim (VStr (data_uri ''image/jpeg'' personFile))),
                        (''garment_image'', Prim (VStr (data_uri ''image/jpeg'' garmentFile)))]),
      (''category'', or_else (map_of b ''category'') ''auto''),
      (''segmentation_free'', Prim (VBool (bool (map_of b ''segmentation_free'') True))),
      (''moderation_level'', or_else (map_of b ''moderation_level'') ''permissive''),
      (''garment_photo_type'', or_else (map_of b ''garment_photo_type'') ''auto''),
      (''mode'', or_else (map_of b ''mode'') ''balanced''),
      (''seed'', Prim (VNum (nullish (num (map_of b ''seed'')) (Fin 42)))),
      (''num_samples'', Prim (VNum (num_samples b))),
      (''output_format'', or_else (map_of b ''output_format'') ''png''),
      (''return_base64'', Prim (VBool (bool (map_of b ''return_base64'') False)))]"

definition fashn_tryon ::
  "((string \<times> json) list \<Rightarrow> json + json) \<Rightarrow> fashn_request
     \<Rightarrow> (string \<times> json) list list \<times> reply" where
  "fashn_tryon post req =
     (case (person req, garment req) of
        (personFile # _, garmentFile # _) \<Rightarrow> relay post (fashn_payload personFile garmentFile (fashn_body req))
      | _ \<Rightarrow> ([], Reply 400 (error_body (Prim (VStr ''Please upload both person and garment images.'')))))"

section \<open>GET /download\<close>

text \<open>
  \<^verbatim>\<open>decoded.split("?")[0]\<close> is the text before the first question mark, and
  \<^verbatim>\<open>path.basename\<close> (POSIX) drops trailing slashes and keeps what follows the last
  remaining slash. \<^verbatim>\<open>res.setHeader\<close> throws on a value holding a control character
  other than tab, and the handler's \<^verbatim>\<open>catch\<close> then answers 500.
  \<^verbatim>\<open>decodeURIComponent\<close> and the remote fetch are parameters; each either fails with a
  message (\<open>Inl\<close>) or returns its result.
\<close>

definition split_first :: "char \<Rightarrow> string \<Rightarrow> string" where
  "split_first sep s = takeWhile (\<lambda>c. c \<noteq> sep) s"

definition basename :: "string \<Rightarrow> string" where
  "basename p =
     rev (takeWhile (\<lambda>c. c \<noteq> CHR ''/'') (dropWhile (\<lambda>c. c = CHR ''/'') (rev p)))"

definition filename :: "string \<Rightarrow> string" where
  "filename decoded = basename (split_first (CHR ''?'') decoded)"

definition content_disposition :: "string \<Rightarrow> string" where
  "content_disposition decoded = ''attachment; filename=\"'' @ filename decoded @ ''\"''"

definition valid_header_char :: "char \<Rightarrow> bool" where
  "valid_header_char c = (of_char c = (9 :: nat) \<or> (32 \<le> (of_char c :: nat) \<and> of_char c \<noteq> (127 :: nat)))"

definition setHeader :: "string \<Rightarrow> string \<Rightarrow> string + (string \<times> string)" where
  "setHeader name v =
     (if list_all valid_header_char v then Inr (name, v)
      else Inl (''Invalid character in header content [\"'' @ name @ ''\"]''))"

datatype 'd download_reply =
    MissingUrl
  | Piped "(string \<times> string) list" 'd
  | DownloadFailed string

definition download ::
  "(string \<Rightarrow> string + string) \<Rightarrow> (string \<Rightarrow> string + 'd) \<Rightarrow> string option \<Rightarrow> 'd download_reply" where
  "download decodeURIComponent get url =
     (case url of
        None \<Rightarrow> MissingUrl
      | Some u \<Rightarrow>
          if u = [] then MissingUrl
          else case decodeURIComponent u of
                 Inl m \<Rightarrow> DownloadFailed (if m = [] then ''download failed'' else m)
               | Inr decoded \<Rightarrow>
                   (case get decoded of
                      Inl m \<Rightarrow> DownloadFailed (if m = [] then ''download failed'' else m)
                    | Inr remote \<Rightarrow>
                        (case setHeader ''Content-Disposition'' (content_disposition decoded) of
                           Inl m \<Rightarrow> DownloadFailed (if m = [] then ''download failed'' else m)
                         | Inr h \<Rightarrow> Piped [h] remote)))"

section \<open>Status streams\<close>

text \<open>
  \<^verbatim>\<open>GET /events/:taskId\<close> and \<^verbatim>\<open>GET /fashn/events/:id\<close> register an interval timer whose
  asynchronous callback fetches the status and writes server-sent events. The session is
  the closure state of one request: the flag \<^verbatim>\<open>stopped\<close>, the timer (registered or
  cleared), the fetches awaiting their result, and the calls made on the response object,
  in order. The callback is split at its \<^verbatim>\<open>await\<close>: a timer tick runs it up to the
  fetch, and the settling of that fetch runs the rest. The event loop interleaves ticks,
  settlements and the request's \<^verbatim>\<open>close\<close> event freely.

  Time is counted in milliseconds since the handler ran: the \<open>k\<close>-th tick of
  \<^verbatim>\<open>setInterval(f, 2000)\<close> comes at \<open>2000 * k\<close>, and \<open>started\<close> records when each
  fetch was begun. A fetch is named by its position in \<open>started\<close>, counted from 1.
\<close>

datatype provider = Meshy | Fashn

datatype sse = Message json | Finished json | Error string

datatype res_call = Write sse | End

datatype fetch_result = Resolved json | Rejected string

datatype event = Tick | Settle nat fetch_result | Close

record session =
  headers :: "(string \<times> string) list"
  stopped :: bool
  timer :: bool
  next_due :: nat
  started :: "nat list"
  in_flight :: "nat list"
  res :: "res_call list"

definition intervalMs :: nat where
  "intervalMs = 2000"

definition subscribe :: "provider \<Rightarrow> session" where
  "subscribe p =
     \<lparr>headers = [(''Content-Type'', ''text/event-stream''), (''Cache-Control'', ''no-cache''),
                 (''Connection'', ''keep-alive'')],
      stopped = False, timer = True, next_due = intervalMs, started = [], in_flight = [],
      res = []\<rparr>"

definition res_write :: "sse \<Rightarrow> session \<Rightarrow> session" where
  "res_write e s = s\<lparr>res := res s @ [Write e]\<rparr>"

definition res_end :: "session \<Rightarrow> session" where
  "res_end s = s\<lparr>res := res s @ [End]\<rparr>"

definition clearInterval :: "session \<Rightarrow> session" where
  "clearInterval s = s\<lparr>timer := False\<rparr>"

definition set_stopped :: "session \<Rightarrow> session" where
  "set_stopped s = s\<lparr>stopped := True\<rparr>"

text \<open>
  \<^verbatim>\<open>data.status\<close>: reading a property of \<^verbatim>\<open>null\<close> throws a TypeError, which the
  surrounding \<^verbatim>\<open>try\<close> catches; a primitive has no such property; an object is looked up.
\<close>

definition status_property :: "json \<Rightarrow> string + json option" where
  "status_property d =
     (case d of
        Prim VNull \<Rightarrow> Inl ''Cannot read properties of null (reading 'status')''
      | Prim _ \<Rightarrow> Inr None
      | Obj kvs \<Rightarrow> Inr (map_of kvs ''status''))"

fun truthy_json :: "json \<Rightarrow> bool" where
  "truthy_json (Prim v) = truthy v"
| "truthy_json (Obj kvs) = True"

definition is_terminal :: "provider \<Rightarrow> json option \<Rightarrow> bool" where
  "is_terminal p st =
     (case st of
        None \<Rightarrow> False
      | Some v \<Rightarrow>
          truthy_json v \<and>
          (case p of
             Meshy \<Rightarrow> v \<in> set (map (\<lambda>x. Prim (VStr x)) [''SUCCEEDED'', ''FAILED'', ''CANCELED''])
           | Fashn \<Rightarrow> v = Prim (VStr ''completed'') \<or> v = Prim (VStr ''failed'')))"

definition on_finished :: "provider \<Rightarrow> json \<Rightarrow> session \<Rightarrow> session" where
  "on_finished p d s =
     (case p of
        Meshy \<Rightarrow> res_end (res_write (Finished d) (set_stopped (clearInterval s)))
      | Fashn \<Rightarrow> res_end (set_stopped (clearInterval (res_write (Finished d) s))))"

definition on_catch :: "provider \<Rightarrow> string \<Rightarrow> session \<Rightarrow> session" where
  "on_catch p m s =
     (case p of
        Meshy \<Rightarrow> res_end (res_write (Error m) (set_stopped (clearInterval s)))
      | Fashn \<Rightarrow> res_end (set_stopped (clearInterval (res_write (Error m) s))))"

definition after_await :: "provider \<Rightarrow> fetch_result \<Rightarrow> session \<Rightarrow> session" where
  "after_await p r s =
     (case r of
        Rejected m \<Rightarrow> on_catch p m s
      | Resolved d \<Rightarrow>
          (let s1 = res_write (Message d) s
           in case status_property d of
                Inl m \<Rightarrow> on_catch p m s1
              | Inr st \<Rightarrow> if is_terminal p st then on_finished p d s1 else s1))"

definition callback :: "session \<Rightarrow> session" where
  "callback s =
     (if stopped s then s
      else s\<lparr>started := started s @ [next_due s],
             in_flight := in_flight s @ [Suc (length (started s))]\<rparr>)"

text \<open>
  One turn of the event loop. A cleared timer does not fire, and only a fetch that is
  awaited can settle: such events are not steps (\<open>None\<close>).
\<close>

fun step :: "provider \<Rightarrow> event \<Rightarrow> session \<Rightarrow> session option" where
  "step p Tick s =
     (if timer s then Some ((callback s)\<lparr>next_due := next_due s + intervalMs\<rparr>) else None)"
| "step p (Settle i r) s =
     (if i \<in> set (in_flight s)
      then Some (after_await p r (s\<lparr>in_flight := removeAll i (in_flight s)\<rparr>))
      else None)"
| "step p Close s = Some (clearInterval (set_stopped s))"

fun run :: "provider \<Rightarrow> event list \<Rightarrow> session \<Rightarrow> session option" where
  "run p [] s = Some s"
| "run p (e # es) s = (case step p e s of None \<Rightarrow> None | Some s' \<Rightarrow> run p es s')"

fun is_tick :: "event \<Rightarrow> bool" where
  "is_tick Tick = True"
| "is_tick _ = False"

text \<open>
  A schedule in which every fetch settles before the next tick: \<open>serial b es\<close> with
  \<open>b\<close> telling whether a fetch may still be awaited.
\<close>

fun serial :: "bool \<Rightarrow> event list \<Rightarrow> bool" where
  "serial b [] = True"
| "serial b (Tick # es) = (\<not> b \<and> serial True es)"
| "serial b (Settle i r # es) = serial False es"
| "serial b (Close # es) = serial b es"

section \<open>Observations and sample inputs\<close>

text \<open>
  \<open>posted_field k\<close> reads the field \<open>k\<close> of every payload a handler posted.
  The remaining definitions are sample inputs for the examples below: a provider that
  accepts every job, a small uploaded file, a URL without percent escapes (which
  \<^verbatim>\<open>decodeURIComponent\<close> leaves as it is), a remote file and a status envelope.
\<close>

definition posted_field :: "string \<Rightarrow> (string \<times> 'v) list list \<times> reply \<Rightarrow> 'v option list" where
  "posted_field k out = map (\<lambda>payload. map_of payload k) (fst out)"

definition mock_provider :: "'p \<Rightarrow> json + json" where
  "mock_provider payload = Inr (Obj [(''id'', Prim (VStr ''task-123''))])"

definition example_upload :: upload_file where
  "example_upload = \<lparr>mimetype = ''image/png'', buffer = [0x89, 0x50, 0x4E, 0x47]\<rparr>"

definition plain_decode :: "string \<Rightarrow> string + string" where
  "plain_decode u = Inr u"

definition mock_remote :: "string \<Rightarrow> string + string" where
  "mock_remote u = Inr ''bytes''"

definition envelope :: "string \<Rightarrow> json" where
  "envelope st = Obj [(''id'', Prim (VStr ''task-123'')), (''status'', Prim (VStr st))]"

text \<open>
  The polling schedule after \<open>n\<close> ticks: the timer is due at \<open>intervalMs * (n + 1)\<close>,
  the \<open>k\<close>-th fetch was begun at \<open>intervalMs * k\<close>, and a session that is not stopped has
  begun one fetch per tick.
\<close>

definition on_schedule :: "nat \<Rightarrow> session \<Rightarrow> bool" where
  "on_schedule n s \<longleftrightarrow>
     next_due s = intervalMs * Suc n
     \<and> started s = map (\<lambda>k. intervalMs * Suc k) [0..<length (started s)]
     \<and> length (started s) \<le> n
     \<and> (\<not> stopped s \<longrightarrow> length (started s) = n)"

section \<open>Properties of job submission\<close>

subsection \<open>What a handler posts\<close>

lemma posted_relay: "posted_field k (relay post p) = [map_of p k]"
  by (simp add: posted_field_def relay_def split: sum.splits)

lemma image_to_3d_posts:
  "image_source req = Some img \<Longrightarrow> req_body req = Some b \<Longrightarrow>
     posted_field k (image_to_3d post req) = [map_of (meshy_payload img b) k]"
  by (simp add: image_to_3d_def posted_relay)

lemma fashn_tryon_posts:
  "person req = pf # ps \<Longrightarrow> garment req = gf # gs \<Longrightarrow>
     posted_field k (fashn_tryon post req) = [map_of (fashn_payload pf gf (fashn_body req)) k]"
  by (simp add: fashn_tryon_def posted_relay)

lemma payload_num_samples:
  "map_of (fashn_payload pf gf b) ''num_samples'' = Some (Prim (VNum (num_samples b)))"
  by (simp add: fashn_payload_def)

subsection \<open>Clamping of the sample count\<close>

lemma Math_clamp_range: "n \<noteq> NaN \<Longrightarrow> in_range 1 4 (Math_min (Math_max n (Fin 1)) (Fin 4))"
  by (cases n) auto

lemma Math_clamp_integer:
  "n \<noteq> NaN \<Longrightarrow> is_integer n \<Longrightarrow> is_integer (Math_min (Math_max n (Fin 1)) (Fin 4))"
  by (cases n) (auto simp: max_def min_def)

lemma num_samples_absent: "num_samples [] = Fin 1"
  by (simp add: num_samples_def num_def nullish_def)

lemma num_samples_zero: "num_samples [(''num_samples'', VStr ''0'')] = Fin 1"
  by code_simp

lemma num_samples_ten: "num_samples [(''num_samples'', VStr ''10'')] = Fin 4"
  by code_simp

lemma num_samples_two: "num_samples [(''num_samples'', VStr ''2'')] = Fin 2"
  by code_simp

text \<open>
  Claim C6, as the code has it. For a \<^verbatim>\<open>POST /fashn/tryon\<close> request with both images
  whose \<^verbatim>\<open>num_samples\<close>, when supplied, converts to a number other than NaN, the
  \<^verbatim>\<open>num_samples\<close> field of the posted payload is a number in the inclusive range from
  1 to 4, and it is an integer whenever the converted input is one. An absent field gives
  1, the input 0 gives 1, 10 gives 4 and 2 gives 2.
\<close>

theorem num_samples_clamped:
  assumes "person req = pf # ps" and "garment req = gf # gs"
    and "\<forall>v. map_of (fashn_body req) ''num_samples'' = Some v \<longrightarrow> Number v \<noteq> NaN"
  shows "posted_field ''num_samples'' (fashn_tryon post req)
           = [Some (Prim (VNum (num_samples (fashn_body req))))]
       \<and> in_range 1 4 (num_samples (fashn_body req))
       \<and> (is_integer (nullish (num (map_of (fashn_body req) ''num_samples'')) (Fin 1))
            \<longrightarrow> is_integer (num_samples (fashn_body req)))
       \<and> num_samples [] = Fin 1
       \<and> num_samples [(''num_samples'', VStr ''0'')] = Fin 1
       \<and> num_samples [(''num_samples'', VStr ''10'')] = Fin 4
       \<and> num_samples [(''num_samples'', VStr ''2'')] = Fin 2"
proof -
  let ?n = "nullish (num (map_of (fashn_body req) ''num_samples'')) (Fin 1)"
  have n: "?n \<noteq> NaN"
    using assms(3) by (auto simp: nullish_def num_def split: option.splits)
  have posted: "posted_field ''num_samples'' (fashn_tryon post req)
      = [Some (Prim (VNum (num_samples (fashn_body req))))]"
    using assms(1,2) by (simp add: fashn_tryon_posts payload_num_samples)
  have range: "in_range 1 4 (num_samples (fashn_body req))"
    unfolding num_samples_def using n by (rule Math_clamp_range)
  have int: "is_integer ?n \<longrightarrow> is_integer (num_samples (fashn_body req))"
    unfolding num_samples_def using n by (simp add: Math_clamp_integer)
  show ?thesis
    using posted range int num_samples_absent num_samples_zero num_samples_ten num_samples_two
    by simp
qed

theorem num_samples_clamped_witness:
  "posted_field ''num_samples''
     (fashn_tryon mock_provider
        \<lparr>person = [example_upload], garment = [example_upload],
         fashn_body = [(''num_samples'', VStr ''3'')]\<rparr>)
     = [Some (Prim (VNum (Fin 3)))]
   \<and> in_range 1 4 (Fin 3) \<and> is_integer (Fin 3)"
proof -
  let ?req = "\<lparr>person = [example_upload], garment = [example_upload],
         fashn_body = [(''num_samples'', VStr ''3'')]\<rparr>"
  have three: "Number (VStr ''3'') = Fin 3" by code_simp
  have n: "num_samples (fashn_body ?req) = Fin 3" by code_simp
  have h: "\<forall>v. map_of (fashn_body ?req) ''num_samples'' = Some v \<longrightarrow> Number v \<noteq> NaN"
    using three by simp
  have i: "is_integer (nullish (num (map_of (fashn_body ?req) ''num_samples'')) (Fin 1))"
    using three by (simp add: nullish_def num_def)
  from num_samples_clamped [of ?req example_upload "[]" example_upload "[]" mock_provider, OF _ _ h] i n
  show ?thesis by simp
qed

text \<open>
  The claim as it was stated promises an integer in the range for every client value.
  The input \<^verbatim>\<open>2.5\<close> is posted as 2.5, and the input \<^verbatim>\<open>abc\<close> as NaN:
  \<^verbatim>\<open>Math.max\<close> and \<^verbatim>\<open>Math.min\<close> neither round nor replace NaN.
\<close>

theorem num_samples_counterexample:
  "posted_field ''num_samples''
     (fashn_tryon mock_provider
        \<lparr>person = [example_upload], garment = [example_upload],
         fashn_body = [(''num_samples'', VStr ''2.5'')]\<rparr>)
     = [Some (Prim (VNum (Fin (5 / 2))))]
   \<and> \<not> is_integer (Fin (5 / 2))
   \<and> posted_field ''num_samples''
     (fashn_tryon mock_provider
        \<lparr>person = [example_upload], garment = [example_upload],
         fashn_body = [(''num_samples'', VStr ''abc'')]\<rparr>)
     = [Some (Prim (VNum NaN))]
   \<and> \<not> in_range 1 4 NaN"
proof -
  have n: "num_samples [(''num_samples'', VStr ''2.5'')] = Fin (5 / 2)" by code_simp
  have m: "num_samples [(''num_samples'', VStr ''abc'')] = NaN" by code_simp
  have i: "\<not> is_integer (Fin (5 / 2))" by code_simp
  show ?thesis using n m i by (simp add: fashn_tryon_posts payload_num_samples)
qed

subsection \<open>Coercion of the optional fields\<close>

lemma map_of_assign:
  "map_of (assign k v p) x = (if x = k \<and> k \<noteq> ''__proto__'' then Some v else map_of p x)"
  by (simp add: assign_def update_conv')

lemma map_of_loop_aux:
  "map_of (fold (\<lambda>k p. case map_of b k of None \<Rightarrow> p | Some v \<Rightarrow> assign k (coerce k v) p) ks p) x =
     (if x \<in> set ks \<and> x \<noteq> ''__proto__'' \<and> map_of b x \<noteq> None
      then map_option (coerce x) (map_of b x) else map_of p x)"
proof (induction ks arbitrary: p)
  case Nil
  show ?case by simp
next
  case (Cons k ks)
  show ?case
    by (cases "map_of b k") (auto simp: Cons.IH map_of_assign)
qed

lemma map_of_coercion_loop:
  "map_of (coercion_loop b p) x =
     (case map_of b x of
        None \<Rightarrow> map_of p x
      | Some v \<Rightarrow> if x = ''__proto__'' then map_of p x else Some (coerce x v))"
  unfolding coercion_loop_def map_of_loop_aux
  by (auto split: option.splits dest: map_of_SomeD simp: rev_image_eqI)

lemma map_of_default_texture:
  "map_of (default_texture p) x =
     (if x = ''should_texture'' \<and> map_of p x = None then Some (VBool True) else map_of p x)"
  by (auto simp: default_texture_def update_conv')

lemma map_of_meshy_payload:
  "map_of b x = Some v \<Longrightarrow> x \<noteq> ''__proto__'' \<Longrightarrow>
     map_of (meshy_payload img b) x = Some (coerce x v)"
  by (simp add: meshy_payload_def map_of_default_texture map_of_coercion_loop)

lemma fashn_bool_field:
  assumes "fk = ''segmentation_free'' \<or> fk = ''return_base64''" and "map_of fb fk = Some fv"
    and "fv \<in> {VStr ''true'', VBool True, VStr ''false'', VBool False}"
  shows "map_of (fashn_payload pf gf fb) fk = Some (Prim (VBool (fv = VStr ''true'' \<or> fv = VBool True)))"
proof -
  have v: "bool (Some fv) d = (fv = VStr ''true'' \<or> fv = VBool True)" for d
    using assms(3) by (auto simp: bool_def)
  from assms(1) show ?thesis
  proof
    assume "fk = ''segmentation_free''"
    then show ?thesis using assms(2) v by (simp add: fashn_payload_def)
  next
    assume "fk = ''return_base64''"
    then show ?thesis using assms(2) v by (simp add: fashn_payload_def)
  qed
qed

lemma fashn_seed_field:
  "map_of (fashn_payload pf gf fb) ''seed''
     = Some (Prim (VNum (case map_of fb ''seed'' of None \<Rightarrow> Fin 42 | Some v \<Rightarrow> Number v)))"
  by (simp add: fashn_payload_def nullish_def num_def split: option.splits)

lemma fashn_num_samples_field:
  "map_of (fashn_payload pf gf fb) ''num_samples''
     = Some (Prim (VNum (Math_min (Math_max
          (case map_of fb ''num_samples'' of None \<Rightarrow> Fin 1 | Some v \<Rightarrow> Number v) (Fin 1)) (Fin 4))))"
  by (simp add: fashn_payload_def num_samples_def nullish_def num_def split: option.splits)

lemma fashn_payload_keys:
  "map fst (fashn_payload pf gf fb)
     = [''model_name'', ''inputs'', ''category'', ''segmentation_free'', ''moderation_level'',
        ''garment_photo_type'', ''mode'', ''seed'', ''num_samples'', ''output_format'',
        ''return_base64'']"
  by (simp add: fashn_payload_def)

lemma fashn_other_field:
  assumes "uk \<notin> set [''model_name'', ''inputs'', ''category'', ''segmentation_free'', ''moderation_level'',
        ''garment_photo_type'', ''mode'', ''seed'', ''num_samples'', ''output_format'',
        ''return_base64'']"
  shows "map_of (fashn_payload pf gf fb) uk = None"
proof -
  have "uk \<notin> fst ` set (fashn_payload pf gf fb)"
    using assms unfolding fashn_payload_keys [of pf gf fb, symmetric] by simp
  then show ?thesis
    by (simp add: map_of_eq_None_iff)
qed

text \<open>
  Claim C7, as the code has it. On \<^verbatim>\<open>POST /image-to-3d\<close> every body field other than
  \<^verbatim>\<open>__proto__\<close> reaches the payload: a field of \<open>booleanFields\<close> as a native boolean
  (true for the string \<^verbatim>\<open>"true"\<close> and for the boolean true, false for the string
  \<^verbatim>\<open>"false"\<close> and for the boolean false), a field of \<open>numberFields\<close> as the number
  \<^verbatim>\<open>Number\<close> converts it to, and every other field unchanged. On \<^verbatim>\<open>POST /fashn/tryon\<close>
  the fields \<^verbatim>\<open>segmentation_free\<close> and \<^verbatim>\<open>return_base64\<close>, supplied as one of these four
  values, are posted as native booleans; \<^verbatim>\<open>seed\<close> is posted as the number its value
  converts to (42 when absent) and \<^verbatim>\<open>num_samples\<close> as the number its value converts to,
  clamped between 1 and 4 (1 when absent); and a field that is not one of the eleven keys
  of the payload is not posted.
\<close>

theorem field_coercion:
  "(image_source req = Some img \<and> req_body req = Some b \<and> map_of b k = Some v \<and> k \<noteq> ''__proto__''
      \<longrightarrow> posted_field k (image_to_3d post req)
            = [Some (if k \<in> set booleanFields then VBool (v = VStr ''true'' \<or> v = VBool True)
                     else if k \<in> set numberFields then VNum (Number v)
                     else v)])
   \<and> (person freq = pf # ps \<and> garment freq = gf # gs
        \<and> (fk = ''segmentation_free'' \<or> fk = ''return_base64'')
        \<and> map_of (fashn_body freq) fk = Some fv
        \<and> fv \<in> {VStr ''true'', VBool True, VStr ''false'', VBool False}
      \<longrightarrow> posted_field fk (fashn_tryon fpost freq)
            = [Some (Prim (VBool (fv = VStr ''true'' \<or> fv = VBool True)))])
   \<and> (person freq = pf # ps \<and> garment freq = gf # gs
      \<longrightarrow> posted_field ''seed'' (fashn_tryon fpost freq)
            = [Some (Prim (VNum (case map_of (fashn_body freq) ''seed'' of
                                   None \<Rightarrow> Fin 42 | Some sv \<Rightarrow> Number sv)))]
        \<and> posted_field ''num_samples'' (fashn_tryon fpost freq)
            = [Some (Prim (VNum (Math_min (Math_max
                  (case map_of (fashn_body freq) ''num_samples'' of
                     None \<Rightarrow> Fin 1 | Some nv \<Rightarrow> Number nv) (Fin 1)) (Fin 4))))])
   \<and> (person freq = pf # ps \<and> garment freq = gf # gs
        \<and> uk \<notin> set [''model_name'', ''inputs'', ''category'', ''segmentation_free'',
                       ''moderation_level'', ''garment_photo_type'', ''mode'', ''seed'',
                       ''num_samples'', ''output_format'', ''return_base64'']
      \<longrightarrow> posted_field uk (fashn_tryon fpost freq) = [None])"
proof (intro conjI impI)
  assume "image_source req = Some img \<and> req_body req = Some b \<and> map_of b k = Some v \<and> k \<noteq> ''__proto__''"
  then show "posted_field k (image_to_3d post req)
            = [Some (if k \<in> set booleanFields then VBool (v = VStr ''true'' \<or> v = VBool True)
                     else if k \<in> set numberFields then VNum (Number v)
                     else v)]"
    by (simp add: image_to_3d_posts map_of_meshy_payload coerce_def)
next
  assume "person freq = pf # ps \<and> garment freq = gf # gs
        \<and> (fk = ''segmentation_free'' \<or> fk = ''return_base64'')
        \<and> map_of (fashn_body freq) fk = Some fv
        \<and> fv \<in> {VStr ''true'', VBool True, VStr ''false'', VBool False}"
  then show "posted_field fk (fashn_tryon fpost freq)
            = [Some (Prim (VBool (fv = VStr ''true'' \<or> fv = VBool True)))]"
    using fashn_bool_field [of fk "fashn_body freq" fv pf gf]
    by (simp add: fashn_tryon_posts)
next
  assume "person freq = pf # ps \<and> garment freq = gf # gs"
  then show "posted_field ''seed'' (fashn_tryon fpost freq)
            = [Some (Prim (VNum (case map_of (fashn_body freq) ''seed'' of
                                   None \<Rightarrow> Fin 42 | Some sv \<Rightarrow> Number sv)))]"
    by (simp only: fashn_tryon_posts fashn_seed_field)
next
  assume "person freq = pf # ps \<and> garment freq = gf # gs"
  then show "posted_field ''num_samples'' (fashn_tryon fpost freq)
            = [Some (Prim (VNum (Math_min (Math_max
                  (case map_of (fashn_body freq) ''num_samples'' of
                     None \<Rightarrow> Fin 1 | Some nv \<Rightarrow> Number nv) (Fin 1)) (Fin 4))))]"
    by (simp only: fashn_tryon_posts fashn_num_samples_field)
next
  assume h: "person freq = pf # ps \<and> garment freq = gf # gs
        \<and> uk \<notin> set [''model_name'', ''inputs'', ''category'', ''segmentation_free'',
                       ''moderation_level'', ''garment_photo_type'', ''mode'', ''seed'',
                       ''num_samples'', ''output_format'', ''return_base64'']"
  then have "map_of (fashn_payload pf gf (fashn_body freq)) uk = None"
    by (intro fashn_other_field) (elim conjE)
  with h show "posted_field uk (fashn_tryon fpost freq) = [None]"
    by (simp only: fashn_tryon_posts)
qed

theorem field_coercion_witness:
  "posted_field ''should_remesh''
     (image_to_3d mock_provider
        \<lparr>req_file = None,
         req_body = Some [(''image_url'', VStr ''https://x/y.png''), (''should_remesh'', VStr ''false''),
                          (''target_polycount'', VStr ''3000''), (''ai_model'', VStr ''latest'')]\<rparr>)
     = [Some (VBool False)]
   \<and> posted_field ''target_polycount''
     (image_to_3d mock_provider
        \<lparr>req_file = None,
         req_body = Some [(''image_url'', VStr ''https://x/y.png''), (''should_remesh'', VStr ''false''),
                          (''target_polycount'', VStr ''3000''), (''ai_model'', VStr ''latest'')]\<rparr>)
     = [Some (VNum (Fin 3000))]
   \<and> posted_field ''ai_model''
     (image_to_3d mock_provider
        \<lparr>req_file = None,
         req_body = Some [(''image_url'', VStr ''https://x/y.png''), (''should_remesh'', VStr ''false''),
                          (''target_polycount'', VStr ''3000''), (''ai_model'', VStr ''latest'')]\<rparr>)
     = [Some (VStr ''latest'')]
   \<and> posted_field ''return_base64''
     (fashn_tryon mock_provider
        \<lparr>person = [example_upload], garment = [example_upload],
         fashn_body = [(''return_base64'', VStr ''true''), (''seed'', VStr ''7''),
                       (''num_samples'', VStr ''10''), (''style'', VStr ''casual'')]\<rparr>)
     = [Some (Prim (VBool True))]
   \<and> posted_field ''seed''
     (fashn_tryon mock_provider
        \<lparr>person = [example_upload], garment = [example_upload],
         fashn_body = [(''return_base64'', VStr ''true''), (''seed'', VStr ''7''),
                       (''num_samples'', VStr ''10''), (''style'', VStr ''casual'')]\<rparr>)
     = [Some (Prim (VNum (Fin 7)))]
   \<and> posted_field ''num_samples''
     (fashn_tryon mock_provider
        \<lparr>person = [example_upload], garment = [example_upload],
         fashn_body = [(''return_base64'', VStr ''true''), (''seed'', VStr ''7''),
                       (''num_samples'', VStr ''10''), (''style'', VStr ''casual'')]\<rparr>)
     = [Some (Prim (VNum (Fin 4)))]
   \<and> posted_field ''style''
     (fashn_tryon mock_provider
        \<lparr>person = [example_upload], garment = [example_upload],
         fashn_body = [(''return_base64'', VStr ''true''), (''seed'', VStr ''7''),
                       (''num_samples'', VStr ''10''), (''style'', VStr ''casual'')]\<rparr>)
     = [None]"
proof -
  let ?u = "VStr ''https://x/y.png''"
  let ?b = "[(''image_url'', ?u), (''should_remesh'', VStr ''false''),
             (''target_polycount'', VStr ''3000''), (''ai_model'', VStr ''latest'')]"
  let ?req = "\<lparr>req_file = None, req_body = Some ?b\<rparr>"
  let ?fb = "[(''return_base64'', VStr ''true''), (''seed'', VStr ''7''),
              (''num_samples'', VStr ''10''), (''style'', VStr ''casual'')]"
  let ?freq = "\<lparr>person = [example_upload], garment = [example_upload], fashn_body = ?fb\<rparr>"
  have src: "image_source ?req = Some ?u"
    by (simp add: image_source_def)
  have n3000: "StringToNumber ''3000'' = Fin 3000" by code_simp
  have n7: "StringToNumber ''7'' = Fin 7" by code_simp
  have n10: "StringToNumber ''10'' = Fin 10" by code_simp
  have h1: "image_source ?req = Some ?u \<and> req_body ?req = Some ?b
      \<and> map_of ?b ''should_remesh'' = Some (VStr ''false'') \<and> ''should_remesh'' \<noteq> ''__proto__''"
    using src by simp
  have h2: "image_source ?req = Some ?u \<and> req_body ?req = Some ?b
      \<and> map_of ?b ''target_polycount'' = Some (VStr ''3000'') \<and> ''target_polycount'' \<noteq> ''__proto__''"
    using src by simp
  have h3: "image_source ?req = Some ?u \<and> req_body ?req = Some ?b
      \<and> map_of ?b ''ai_model'' = Some (VStr ''latest'') \<and> ''ai_model'' \<noteq> ''__proto__''"
    using src by simp
  have h4: "person ?freq = example_upload # [] \<and> garment ?freq = example_upload # []
        \<and> (''return_base64'' = ''segmentation_free'' \<or> ''return_base64'' = ''return_base64'')
        \<and> map_of (fashn_body ?freq) ''return_base64'' = Some (VStr ''true'')
        \<and> VStr ''true'' \<in> {VStr ''true'', VBool True, VStr ''false'', VBool False}"
    by simp
  have h5: "person ?freq = example_upload # [] \<and> garment ?freq = example_upload # []"
    by simp
  have h6: "person ?freq = example_upload # [] \<and> garment ?freq = example_upload # []
        \<and> ''style'' \<notin> set [''model_name'', ''inputs'', ''category'', ''segmentation_free'',
                       ''moderation_level'', ''garment_photo_type'', ''mode'', ''seed'',
                       ''num_samples'', ''output_format'', ''return_base64'']"
    by simp
  have a: "posted_field ''should_remesh'' (image_to_3d mock_provider ?req) = [Some (VBool False)]"
    using field_coercion [THEN conjunct1, rule_format, OF h1, of mock_provider]
    by (simp add: booleanFields_def)
  have b: "posted_field ''target_polycount'' (image_to_3d mock_provider ?req) = [Some (VNum (Fin 3000))]"
    using field_coercion [THEN conjunct1, rule_format, OF h2, of mock_provider]
    by (simp add: booleanFields_def numberFields_def n3000)
  have c: "posted_field ''ai_model'' (image_to_3d mock_provider ?req) = [Some (VStr ''latest'')]"
    using field_coercion [THEN conjunct1, rule_format, OF h3, of mock_provider]
    by (simp add: booleanFields_def numberFields_def)
  have d: "posted_field ''return_base64'' (fashn_tryon mock_provider ?freq) = [Some (Prim (VBool True))]"
    using field_coercion [THEN conjunct2, THEN conjunct1, rule_format, OF h4, of mock_provider]
    by simp
  have e: "posted_field ''seed'' (fashn_tryon mock_provider ?freq) = [Some (Prim (VNum (Fin 7)))]"
    using field_coercion [THEN conjunct2, THEN conjunct2, THEN conjunct1, rule_format, OF h5,
        THEN conjunct1, of mock_provider]
    by (simp add: n7)
  have f: "posted_field ''num_samples'' (fashn_tryon mock_provider ?freq) = [Some (Prim (VNum (Fin 4)))]"
    using field_coercion [THEN conjunct2, THEN conjunct2, THEN conjunct1, rule_format, OF h5,
        THEN conjunct2, of mock_provider]
    by (simp add: n10)
  have g: "posted_field ''style'' (fashn_tryon mock_provider ?freq) = [None]"
    using field_coercion [THEN conjunct2, THEN conjunct2, THEN conjunct2, rule_format, OF h6,
        of mock_provider]
    by simp
  show ?thesis using a b c d e f g by (intro conjI)
qed

text \<open>
  The claim as it was stated lets unrecognized fields pass through on every submission.
  The payload of \<^verbatim>\<open>POST /fashn/tryon\<close> is an object literal with a fixed set of keys:
  a field it does not name is not posted. And on \<^verbatim>\<open>POST /image-to-3d\<close> the key
  \<^verbatim>\<open>__proto__\<close> of a JSON body does not become a property of the payload.
\<close>

theorem field_coercion_counterexample:
  "posted_field ''style''
     (fashn_tryon mock_provider
        \<lparr>person = [example_upload], garment = [example_upload],
         fashn_body = [(''style'', VStr ''casual'')]\<rparr>)
     = [None]
   \<and> posted_field ''__proto__''
     (image_to_3d mock_provider
        \<lparr>req_file = None,
         req_body = Some [(''image_url'', VStr ''https://x/y.png''), (''__proto__'', VStr ''x'')]\<rparr>)
     = [None]"
proof -
  have a: "posted_field ''style''
     (fashn_tryon mock_provider
        \<lparr>person = [example_upload], garment = [example_upload],
         fashn_body = [(''style'', VStr ''casual'')]\<rparr>) = [None]"
    by (simp add: fashn_tryon_posts fashn_payload_def)
  have src: "image_source
        \<lparr>req_file = None,
         req_body = Some [(''image_url'', VStr ''https://x/y.png''), (''__proto__'', VStr ''x'')]\<rparr>
      = Some (VStr ''https://x/y.png'')"
    by (simp add: image_source_def)
  have b: "posted_field ''__proto__''
     (image_to_3d mock_provider
        \<lparr>req_file = None,
         req_body = Some [(''image_url'', VStr ''https://x/y.png''), (''__proto__'', VStr ''x'')]\<rparr>)
     = [None]"
    using image_to_3d_posts [OF src, of "[(''image_url'', VStr ''https://x/y.png''), (''__proto__'', VStr ''x'')]"
        "''__proto__''" mock_provider]
    by (simp add: meshy_payload_def map_of_default_texture map_of_coercion_loop)
  show ?thesis using a b by (intro conjI)
qed

subsection \<open>The image source\<close>

text \<open>
  Claim C8. A \<^verbatim>\<open>POST /image-to-3d\<close> request with neither an uploaded file nor an
  \<^verbatim>\<open>image_url\<close> body field is answered with status 400, and nothing is posted to the
  provider.
\<close>

theorem missing_image_rejected:
  assumes "req_file req = None"
    and "req_body req = None \<or> (\<exists>b. req_body req = Some b \<and> map_of b ''image_url'' = None)"
  shows "image_to_3d post req
           = ([], Reply 400 (Obj [(''error'', Prim (VStr ''Provide an image file or image_url''))]))"
  using assms by (auto simp: image_to_3d_def image_source_def error_body_def)

theorem missing_image_rejected_witness:
  "image_to_3d mock_provider \<lparr>req_file = None, req_body = Some [(''should_texture'', VStr ''true'')]\<rparr>
     = ([], Reply 400 (Obj [(''error'', Prim (VStr ''Provide an image file or image_url''))]))"
  using missing_image_rejected
    [of "\<lparr>req_file = None, req_body = Some [(''should_texture'', VStr ''true'')]\<rparr>" mock_provider]
  by simp

text \<open>
  Claim C10. When a \<^verbatim>\<open>POST /image-to-3d\<close> request carries both an uploaded file and
  an \<^verbatim>\<open>image_url\<close> body field, the image source is resolved to the data URI made
  from the file, and the posted payload holds the body's \<^verbatim>\<open>image_url\<close> instead: the loop
  over the body keys overwrites it.
\<close>

theorem body_image_url_overwrites:
  assumes "req_file req = Some f" and "req_body req = Some b" and "map_of b ''image_url'' = Some u"
  shows "image_source req = Some (VStr (data_uri ''image/png'' f))
       \<and> posted_field ''image_url'' (image_to_3d post req) = [Some u]"
proof -
  have src: "image_source req = Some (VStr (data_uri ''image/png'' f))"
    using assms(1) by (simp add: image_source_def)
  then have "posted_field ''image_url'' (image_to_3d post req) = [Some u]"
    using assms(2,3)
    by (simp add: image_to_3d_posts map_of_meshy_payload coerce_def booleanFields_def numberFields_def)
  with src show ?thesis by simp
qed

theorem body_image_url_overwrites_witness:
  "posted_field ''image_url''
     (image_to_3d mock_provider
        \<lparr>req_file = Some example_upload, req_body = Some [(''image_url'', VStr ''https://x/y.png'')]\<rparr>)
     = [Some (VStr ''https://x/y.png'')]
   \<and> image_source
        \<lparr>req_file = Some example_upload, req_body = Some [(''image_url'', VStr ''https://x/y.png'')]\<rparr>
     = Some (VStr ''data:image/png;base64,iVBORw=='')"
proof -
  have d: "data_uri ''image/png'' example_upload = ''data:image/png;base64,iVBORw==''"
    by (simp add: data_uri_def example_upload_def b64_def b64chars_def)
  show ?thesis
    using d body_image_url_overwrites
      [of "\<lparr>req_file = Some example_upload, req_body = Some [(''image_url'', VStr ''https://x/y.png'')]\<rparr>"
          example_upload "[(''image_url'', VStr ''https://x/y.png'')]" "VStr ''https://x/y.png''" mock_provider]
    by simp
qed

section \<open>Properties of the download relay\<close>

lemma split_first_query:
  "sep \<notin> set xs \<Longrightarrow> split_first sep (xs @ sep # q) = xs"
  by (auto simp: split_first_def takeWhile_tail)

lemma split_first_none:
  "sep \<notin> set xs \<Longrightarrow> split_first sep xs = xs"
  by (auto simp: split_first_def)

lemma basename_segment:
  assumes "CHR ''/'' \<notin> set name" and "set slashes \<subseteq> {CHR ''/''}"
    and "pre = [] \<or> (\<exists>d. pre = d @ ''/'')" and "name = [] \<longrightarrow> pre = []"
  shows "basename (pre @ name @ slashes) = name"
proof -
  have sl: "dropWhile (\<lambda>c. c = CHR ''/'') (rev slashes @ xs) = dropWhile (\<lambda>c. c = CHR ''/'') xs" for xs
    using assms(2) by (intro dropWhile_append2) auto
  have tk: "takeWhile (\<lambda>c. c \<noteq> CHR ''/'') (rev pre) = []"
    using assms(3) by auto
  have tn: "takeWhile (\<lambda>c. c \<noteq> CHR ''/'') (rev name @ rev pre) = rev name"
    using assms(1) tk by (subst takeWhile_append2) auto
  show ?thesis
  proof (cases "name = []")
    case True
    with assms(4) have "pre = []" by simp
    have d: "dropWhile (\<lambda>c. c = CHR ''/'') (rev slashes) = []"
      using assms(2) by (auto simp: dropWhile_eq_Nil_conv)
    from True \<open>pre = []\<close> show ?thesis
      by (simp add: basename_def d)
  next
    case False
    then obtain x xs where r: "rev name = x # xs"
      by (cases "rev name") auto
    have "x \<in> set name"
      using r by (metis list.set_intros(1) set_rev)
    then have x: "x \<noteq> CHR ''/''"
      using assms(1) by auto
    have "dropWhile (\<lambda>c. c = CHR ''/'') (rev name @ rev pre) = rev name @ rev pre"
      using x by (simp add: r)
    then show ?thesis
      using sl [of "rev name @ rev pre"] tn by (simp add: basename_def)
  qed
qed

lemma filename_segment:
  assumes "CHR ''/'' \<notin> set name" and "set slashes \<subseteq> {CHR ''/''}"
    and "pre = [] \<or> (\<exists>d. pre = d @ ''/'')" and "name = [] \<longrightarrow> pre = []"
    and "CHR ''?'' \<notin> set name" and "CHR ''?'' \<notin> set pre"
    and "rest = [] \<or> (\<exists>q. rest = CHR ''?'' # q)"
  shows "filename (pre @ name @ slashes @ rest) = name"
proof -
  have nq: "CHR ''?'' \<notin> set (pre @ name @ slashes)"
    using assms(2,5,6) by auto
  have "split_first (CHR ''?'') ((pre @ name @ slashes) @ rest) = pre @ name @ slashes"
  proof (cases "rest = []")
    case True
    then show ?thesis using split_first_none [OF nq] by simp
  next
    case False
    then obtain q where "rest = CHR ''?'' # q" using assms(7) by blast
    then show ?thesis using split_first_query [OF nq, of q] by simp
  qed
  then show ?thesis
    using basename_segment [OF assms(1,2,3,4)] by (simp add: filename_def)
qed

lemma header_value_valid:
  "list_all valid_header_char (''attachment; filename=\"'' @ name @ ''\"'')
     = list_all valid_header_char name"
  by (simp add: valid_header_char_def)

text \<open>
  Claim C9, as the code has it. Every decoded URL is a prefix that is empty or ends in
  a slash, a last segment \<open>name\<close> without slash, trailing slashes, and then nothing or a
  query string begun by the first question mark (with \<open>name\<close> empty only when nothing but
  slashes comes before the query). When decoding and fetching succeed, the file name is
  \<open>name\<close>: the query string is stripped, and \<open>name\<close> may hold a \<^verbatim>\<open>#\<close>. The
  \<^verbatim>\<open>Content-Disposition\<close> header carries it when \<open>name\<close> holds only characters allowed
  in a header value; otherwise setting the header fails and the reply is the error.
\<close>

theorem download_filename:
  assumes "url \<noteq> []" and "decodeURIComponent url = Inr decoded" and "get decoded = Inr remote"
    and "decoded = pre @ name @ slashes @ rest"
    and "pre = [] \<or> (\<exists>d. pre = d @ ''/'')" and "name = [] \<longrightarrow> pre = []"
    and "CHR ''/'' \<notin> set name" and "set slashes \<subseteq> {CHR ''/''}"
    and "rest = [] \<or> (\<exists>q. rest = CHR ''?'' # q)"
    and "CHR ''?'' \<notin> set name" and "CHR ''?'' \<notin> set pre"
  shows "download decodeURIComponent get (Some url)
           = (if list_all valid_header_char name
              then Piped [(''Content-Disposition'', ''attachment; filename=\"'' @ name @ ''\"'')] remote
              else DownloadFailed ''Invalid character in header content [\"Content-Disposition\"]'')"
proof -
  have f: "filename decoded = name"
    unfolding assms(4) using assms(7,8,5,6,10,11,9) by (rule filename_segment)
  have v: "list_all valid_header_char (content_disposition decoded) = list_all valid_header_char name"
    unfolding content_disposition_def f by (rule header_value_valid)
  show ?thesis
  proof (cases "list_all valid_header_char name")
    case True
    then show ?thesis
      using assms(1,2,3) v f by (simp add: download_def setHeader_def content_disposition_def)
  next
    case False
    then show ?thesis
      using assms(1,2,3) v by (simp add: download_def setHeader_def)
  qed
qed

theorem download_filename_witness:
  "download plain_decode mock_remote (Some ''https://x/a.png?x=1'')
     = Piped [(''Content-Disposition'', ''attachment; filename=\"a.png\"'')] ''bytes''
   \<and> download plain_decode mock_remote (Some ''https://x/dir/'')
     = Piped [(''Content-Disposition'', ''attachment; filename=\"dir\"'')] ''bytes''
   \<and> download plain_decode mock_remote (Some (''https://x/a'' @ [CHR 0x0A] @ ''b.png''))
     = DownloadFailed ''Invalid character in header content [\"Content-Disposition\"]''"
proof -
  have h1: "''https://x/a.png?x=1'' = ''https://x/'' @ ''a.png'' @ [] @ ''?x=1''"
    by simp
  have h2: "''https://x/dir/'' = ''https://x/'' @ ''dir'' @ ''/'' @ []"
    by simp
  have h3: "''https://x/a'' @ [CHR 0x0A] @ ''b.png'' = ''https://x/'' @ (''a'' @ [CHR 0x0A] @ ''b.png'') @ [] @ []"
    by simp
  have p: "''https://x/'' = [] \<or> (\<exists>d. ''https://x/'' = d @ ''/'')"
    by simp
  have r: "''?x=1'' = [] \<or> (\<exists>q. ''?x=1'' = CHR ''?'' # q)"
    by simp
  have a: "download plain_decode mock_remote (Some ''https://x/a.png?x=1'')
     = Piped [(''Content-Disposition'', ''attachment; filename=\"a.png\"'')] ''bytes''"
    using download_filename [of "''https://x/a.png?x=1''" plain_decode "''https://x/a.png?x=1''"
        mock_remote "''bytes''" "''https://x/''" "''a.png''" "[]" "''?x=1''", OF _ _ _ h1 p _ _ _ r]
    by (simp add: plain_decode_def mock_remote_def valid_header_char_def)
  have b: "download plain_decode mock_remote (Some ''https://x/dir/'')
     = Piped [(''Content-Disposition'', ''attachment; filename=\"dir\"'')] ''bytes''"
    using download_filename [of "''https://x/dir/''" plain_decode "''https://x/dir/''"
        mock_remote "''bytes''" "''https://x/''" "''dir''" "''/''" "[]", OF _ _ _ h2 p]
    by (simp add: plain_decode_def mock_remote_def valid_header_char_def)
  have c: "download plain_decode mock_remote (Some (''https://x/a'' @ [CHR 0x0A] @ ''b.png''))
     = DownloadFailed ''Invalid character in header content [\"Content-Disposition\"]''"
    using download_filename [of "''https://x/a'' @ [CHR 0x0A] @ ''b.png''" plain_decode
        "''https://x/a'' @ [CHR 0x0A] @ ''b.png''" mock_remote "''bytes''" "''https://x/''"
        "''a'' @ [CHR 0x0A] @ ''b.png''" "[]" "[]", OF _ _ _ h3 p]
    by (simp add: plain_decode_def mock_remote_def valid_header_char_def)
  show ?thesis using a b c by (intro conjI)
qed

text \<open>
  The claim as it was stated also strips the fragment. Only the text from the first
  question mark on is cut: for a URL ending in \<^verbatim>\<open>/a.png#frag\<close> the file name is
  \<^verbatim>\<open>a.png#frag\<close>.
\<close>

theorem download_filename_counterexample:
  "download plain_decode mock_remote (Some ''https://x/a.png#frag'')
     = Piped [(''Content-Disposition'', ''attachment; filename=\"a.png#frag\"'')] ''bytes''"
  by (simp add: download_def plain_decode_def mock_remote_def content_disposition_def
      filename_def basename_def split_first_def setHeader_def valid_header_char_def)

section \<open>Properties of the status streams\<close>

subsection \<open>The parts of the callback\<close>

lemmas session_ops = res_write_def res_end_def clearInterval_def set_stopped_def

lemma on_catch_fields:
  "res (on_catch p m s) = res s @ [Write (Error m), End]"
  "stopped (on_catch p m s)" "\<not> timer (on_catch p m s)"
  "started (on_catch p m s) = started s" "in_flight (on_catch p m s) = in_flight s"
  "next_due (on_catch p m s) = next_due s"
  by (cases p; simp add: on_catch_def session_ops)+

lemma on_finished_fields:
  "res (on_finished p d s) = res s @ [Write (Finished d), End]"
  "stopped (on_finished p d s)" "\<not> timer (on_finished p d s)"
  "started (on_finished p d s) = started s" "in_flight (on_finished p d s) = in_flight s"
  "next_due (on_finished p d s) = next_due s"
  by (cases p; simp add: on_finished_def session_ops)+

lemma after_await_frame:
  "started (after_await p r s) = started s"
  "in_flight (after_await p r s) = in_flight s"
  "next_due (after_await p r s) = next_due s"
  by (auto simp: after_await_def Let_def on_catch_fields on_finished_fields res_write_def
      split: fetch_result.splits sum.splits)

lemma after_await_timer: "timer (after_await p r s) \<Longrightarrow> timer s"
  by (auto simp: after_await_def Let_def on_catch_fields on_finished_fields res_write_def
      split: fetch_result.splits sum.splits if_splits)

lemma after_await_stopped: "stopped s \<Longrightarrow> stopped (after_await p r s)"
  by (auto simp: after_await_def Let_def on_catch_fields on_finished_fields res_write_def
      split: fetch_result.splits sum.splits)

lemma after_await_rejected:
  "after_await p (Rejected m) s = on_catch p m s"
  by (simp add: after_await_def)

lemma after_await_terminal:
  "status_property d = Inr st \<Longrightarrow> is_terminal p st \<Longrightarrow>
     after_await p (Resolved d) s = on_finished p d (res_write (Message d) s)"
  by (simp add: after_await_def)

subsection \<open>After the timer is cleared\<close>

lemma step_cleared:
  "\<not> timer s \<Longrightarrow> step p e s = Some s' \<Longrightarrow> \<not> timer s' \<and> started s' = started s"
  by (cases e) (auto simp: after_await_frame clearInterval_def set_stopped_def
      dest: after_await_timer split: if_splits)

lemma run_cleared:
  "\<not> timer s \<Longrightarrow> run p evs s = Some s' \<Longrightarrow> \<not> timer s' \<and> started s' = started s"
proof (induction evs arbitrary: s)
  case Nil
  then show ?case by simp
next
  case (Cons e evs)
  from Cons.prems(2) obtain t where t: "step p e s = Some t" and r: "run p evs t = Some s'"
    by (auto split: option.splits)
  from step_cleared [OF Cons.prems(1) t] Cons.IH [OF _ r] show ?case by simp
qed

lemma no_polls_after_disconnect:
  "run p (Close # evs) s = Some s' \<Longrightarrow> started s' = started s"
  using run_cleared [of "clearInterval (set_stopped s)" p evs s']
  by (simp add: clearInterval_def set_stopped_def)

lemma step_quiescent:
  "\<not> timer s \<Longrightarrow> in_flight s = [] \<Longrightarrow> step p e s = Some s' \<Longrightarrow>
     \<not> timer s' \<and> in_flight s' = [] \<and> res s' = res s"
  by (cases e) (auto simp: clearInterval_def set_stopped_def split: if_splits)

lemma run_quiescent:
  "\<not> timer s \<Longrightarrow> in_flight s = [] \<Longrightarrow> run p evs s = Some s' \<Longrightarrow> res s' = res s"
proof (induction evs arbitrary: s)
  case Nil
  then show ?case by simp
next
  case (Cons e evs)
  from Cons.prems(3) obtain t where t: "step p e s = Some t" and r: "run p evs t = Some s'"
    by (auto split: option.splits)
  from step_quiescent [OF Cons.prems(1,2) t] Cons.IH [OF _ _ r] show ?case by simp
qed

text \<open>
  A terminal status met while the stream is open: the data message, one finished event
  with the same envelope, and the end of the response. When no other fetch is awaited,
  nothing is written afterwards.
\<close>

lemma terminal_poll_finishes:
  assumes "i \<in> set (in_flight s)" and "status_property d = Inr st" and "is_terminal p st"
  shows "\<exists>s'. step p (Settle i (Resolved d)) s = Some s'
           \<and> res s' = res s @ [Write (Message d), Write (Finished d), End]
           \<and> stopped s' \<and> \<not> timer s'
           \<and> (in_flight s = [i] \<longrightarrow> (\<forall>evs s''. run p evs s' = Some s'' \<longrightarrow> res s'' = res s'))"
proof -
  let ?s' = "on_finished p d (res_write (Message d) (s\<lparr>in_flight := removeAll i (in_flight s)\<rparr>))"
  have st: "step p (Settle i (Resolved d)) s = Some ?s'"
    using assms by (simp add: after_await_terminal)
  have later: "res s'' = res ?s'" if "in_flight s = [i]" and "run p evs ?s' = Some s''" for evs s''
    using run_quiescent [OF _ _ that(2)] that(1)
    by (simp add: on_finished_fields res_write_def)
  show ?thesis
    using st later by (simp add: on_finished_fields res_write_def)
qed

text \<open>
  Claim C1 says that a session which receives a terminal status emits exactly one
  finished event, closes the stream and emits no further events of any kind. Each tick
  begins a fetch without waiting for the one before, and the rest of the callback does
  not look at \<^verbatim>\<open>stopped\<close> again after its \<^verbatim>\<open>await\<close>. So when two fetches overlap
  and the first returns a terminal status, the second one's result is still written to
  the response after its end: a further data message, and a second finished event and
  end when that status is terminal too.
\<close>

theorem late_result_after_finished:
  "map_option res
     (run Meshy [Tick, Tick, Settle 1 (Resolved (envelope ''SUCCEEDED''))] (subscribe Meshy))
     = Some [Write (Message (envelope ''SUCCEEDED'')), Write (Finished (envelope ''SUCCEEDED'')), End]
   \<and> map_option res
     (run Meshy [Tick, Tick, Settle 1 (Resolved (envelope ''SUCCEEDED'')),
                 Settle 2 (Resolved (envelope ''SUCCEEDED''))] (subscribe Meshy))
     = Some [Write (Message (envelope ''SUCCEEDED'')), Write (Finished (envelope ''SUCCEEDED'')), End,
             Write (Message (envelope ''SUCCEEDED'')), Write (Finished (envelope ''SUCCEEDED'')), End]
   \<and> map_option res
     (run Fashn [Tick, Tick, Settle 1 (Resolved (envelope ''completed'')),
                 Settle 2 (Resolved (envelope ''processing''))] (subscribe Fashn))
     = Some [Write (Message (envelope ''completed'')), Write (Finished (envelope ''completed'')), End,
             Write (Message (envelope ''processing''))]"
  by (simp add: subscribe_def callback_def after_await_def status_property_def envelope_def
      is_terminal_def on_finished_def session_ops)

text \<open>
  A failed fetch met while the stream is open: one error event carrying the message,
  and the end of the response; the session is stopped, its timer is cleared, and no
  later event begins a fetch. When no other fetch is awaited, nothing is written
  afterwards.
\<close>

lemma failed_poll_ends_session:
  assumes "i \<in> set (in_flight s)"
  shows "\<exists>s'. step p (Settle i (Rejected m)) s = Some s'
           \<and> res s' = res s @ [Write (Error m), End]
           \<and> stopped s' \<and> \<not> timer s' \<and> started s' = started s
           \<and> (\<forall>evs s''. run p evs s' = Some s'' \<longrightarrow> started s'' = started s)
           \<and> (in_flight s = [i] \<longrightarrow> (\<forall>evs s''. run p evs s' = Some s'' \<longrightarrow> res s'' = res s'))"
proof -
  let ?s' = "on_catch p m (s\<lparr>in_flight := removeAll i (in_flight s)\<rparr>)"
  have st: "step p (Settle i (Rejected m)) s = Some ?s'"
    using assms by (simp add: after_await_rejected)
  have later: "started s'' = started s" if "run p evs ?s' = Some s''" for evs s''
    using run_cleared [OF _ that] by (simp add: on_catch_fields)
  have quiet: "res s'' = res ?s'" if "in_flight s = [i]" and "run p evs ?s' = Some s''" for evs s''
    using run_quiescent [OF _ _ that(2)] that(1) by (simp add: on_catch_fields)
  show ?thesis
    using st later quiet by (simp add: on_catch_fields)
qed

text \<open>
  Claim C2 says that a session whose status fetch fails emits exactly one error event
  carrying the failure message, then stops polling and closes the stream. A failed fetch
  does stop the polling, and it is never retried. But the rest of the callback does not
  look at \<^verbatim>\<open>stopped\<close> after its \<^verbatim>\<open>await\<close>: when two fetches overlap and the first
  fails, the second one's outcome is still written to the response after its end, a
  second error event when it fails too, the data message and the finished event when it
  returns a terminal status.
\<close>

theorem late_result_after_error:
  "map_option res
     (run Meshy [Tick, Tick, Settle 1 (Rejected ''socket hang up'')] (subscribe Meshy))
     = Some [Write (Error ''socket hang up''), End]
   \<and> map_option res
     (run Meshy [Tick, Tick, Settle 1 (Rejected ''socket hang up''),
                 Settle 2 (Rejected ''socket hang up'')] (subscribe Meshy))
     = Some [Write (Error ''socket hang up''), End, Write (Error ''socket hang up''), End]
   \<and> map_option res
     (run Fashn [Tick, Tick, Settle 1 (Rejected ''socket hang up''),
                 Settle 2 (Resolved (envelope ''completed''))] (subscribe Fashn))
     = Some [Write (Error ''socket hang up''), End,
             Write (Message (envelope ''completed'')), Write (Finished (envelope ''completed'')), End]"
  by (simp add: subscribe_def callback_def after_await_def status_property_def envelope_def
      is_terminal_def on_finished_def on_catch_def session_ops)

text \<open>
  Claim C3 says that after the subscriber disconnects no poll is started and no
  event is emitted, and that the result of a fetch awaited at that moment is discarded.
  No poll is started (\<open>no_polls_after_disconnect\<close>). But the result of the awaited
  fetch is written: nothing is on the response when the request closes, and the
  settling fetch then writes its data message, and the finished event and the end when
  its status is terminal.
\<close>

theorem late_result_after_disconnect:
  "map_option res (run Meshy [Tick, Close] (subscribe Meshy)) = Some []
   \<and> map_option res
     (run Meshy [Tick, Close, Settle 1 (Resolved (envelope ''IN_PROGRESS''))] (subscribe Meshy))
     = Some [Write (Message (envelope ''IN_PROGRESS''))]
   \<and> map_option res (run Fashn [Tick, Close] (subscribe Fashn)) = Some []
   \<and> map_option res
     (run Fashn [Tick, Close, Settle 1 (Resolved (envelope ''completed''))] (subscribe Fashn))
     = Some [Write (Message (envelope ''completed'')), Write (Finished (envelope ''completed'')), End]"
  by (simp add: subscribe_def callback_def after_await_def status_property_def envelope_def
      is_terminal_def on_finished_def session_ops)

subsection \<open>Outstanding fetches\<close>

lemma in_flight_step:
  "step p e s = Some s' \<Longrightarrow>
     length (in_flight s') \<le> length (in_flight s) + (if is_tick e then 1 else 0)"
proof (cases e)
  case Tick
  assume "step p e s = Some s'"
  with Tick show ?thesis by (auto simp: callback_def split: if_splits)
next
  case (Settle i r)
  assume "step p e s = Some s'"
  with Settle have "in_flight s' = removeAll i (in_flight s)"
    by (auto simp: after_await_frame split: if_splits)
  then show ?thesis
    using Settle length_removeAll_less_eq [of i "in_flight s"] by simp
next
  case Close
  assume "step p e s = Some s'"
  with Close show ?thesis by (auto simp: clearInterval_def set_stopped_def)
qed

lemma in_flight_run:
  "run p evs s = Some s' \<Longrightarrow>
     length (in_flight s') \<le> length (in_flight s) + length (filter is_tick evs)"
proof (induction evs arbitrary: s)
  case Nil
  then show ?case by simp
next
  case (Cons e evs)
  from Cons.prems obtain t where t: "step p e s = Some t" and r: "run p evs t = Some s'"
    by (auto split: option.splits)
  from in_flight_step [OF t] Cons.IH [OF r] show ?case
    by (cases "is_tick e") simp_all
qed

lemma serial_run:
  "serial b evs \<Longrightarrow> run p evs s = Some s' \<Longrightarrow> length (in_flight s) \<le> 1 \<Longrightarrow>
     (\<not> b \<longrightarrow> in_flight s = []) \<Longrightarrow> length (in_flight s') \<le> 1"
proof (induction b evs arbitrary: s rule: serial.induct)
  case (1 b)
  then show ?case by simp
next
  case (2 b es)
  from "2.prems"(2) obtain t where t: "step p Tick s = Some t" and r: "run p es t = Some s'"
    by (auto split: option.splits)
  from "2.prems"(1,4) have e: "in_flight s = []" by simp
  from t e have "length (in_flight t) \<le> 1"
    by (auto simp: callback_def split: if_splits)
  with "2.IH" [OF _ r] "2.prems"(1) show ?case by simp
next
  case (3 b i r es)
  from "3.prems"(2) obtain t where t: "step p (Settle i r) s = Some t" and r: "run p es t = Some s'"
    by (auto split: option.splits)
  from t have i: "i \<in> set (in_flight s)" and f: "in_flight t = removeAll i (in_flight s)"
    by (auto simp: after_await_frame split: if_splits)
  from i "3.prems"(3) have "in_flight s = [i]"
    by (cases "in_flight s") auto
  with f have "in_flight t = []" by simp
  with "3.IH" [OF _ r] "3.prems"(1) show ?case by simp
next
  case (4 b es)
  from "4.prems"(2) obtain t where t: "step p Close s = Some t" and r: "run p es t = Some s'"
    by (auto split: option.splits)
  from t have "in_flight t = in_flight s"
    by (auto simp: clearInterval_def set_stopped_def)
  with "4.IH" [OF _ r] "4.prems" show ?case by simp
qed

text \<open>
  Claim C4, as the code has it. A tick begins at most one fetch and no other event
  begins any, so the fetches awaited are never more than the ticks fired; and at most
  one fetch is awaited as long as every fetch settles before the next tick.
\<close>

theorem outstanding_fetches:
  assumes "run p evs (subscribe p) = Some s"
  shows "length (in_flight s) \<le> length (filter is_tick evs)
       \<and> (serial False evs \<longrightarrow> length (in_flight s) \<le> 1)"
proof -
  have e: "in_flight (subscribe p) = []"
    by (simp add: subscribe_def)
  have a: "length (in_flight s) \<le> length (filter is_tick evs)"
    using in_flight_run [OF assms] e by simp
  have b: "length (in_flight s) \<le> 1" if "serial False evs"
    using serial_run [OF that assms] e by simp
  show ?thesis using a b by blast
qed

theorem outstanding_fetches_witness:
  "serial False [Tick, Settle 1 (Rejected ''socket hang up'')]
   \<and> (\<exists>s. run Fashn [Tick, Settle 1 (Rejected ''socket hang up'')] (subscribe Fashn) = Some s
        \<and> length (in_flight s) \<le> 1)"
proof -
  let ?evs = "[Tick, Settle 1 (Rejected ''socket hang up'')]"
  have ser: "serial False ?evs" by simp
  obtain s where s: "run Fashn ?evs (subscribe Fashn) = Some s"
    by (simp add: subscribe_def callback_def)
  from outstanding_fetches [OF s] ser have "length (in_flight s) \<le> 1" by blast
  with ser s show ?thesis by blast
qed

text \<open>
  The claim as it was stated allows one outstanding fetch at any time. A tick does not
  wait for the fetch before it: two ticks with no settlement between them leave two
  fetches awaited.
\<close>

theorem outstanding_fetches_counterexample:
  "map_option in_flight (run Meshy [Tick, Tick] (subscribe Meshy)) = Some [1, 2]
   \<and> map_option in_flight (run Fashn [Tick, Tick] (subscribe Fashn)) = Some [1, 2]"
  by (simp add: subscribe_def callback_def)

subsection \<open>The polling schedule\<close>

lemma on_schedule_subscribe: "on_schedule 0 (subscribe p)"
  by (simp add: on_schedule_def subscribe_def)

lemma on_schedule_step:
  assumes "on_schedule n s" and "step p e s = Some s'"
  shows "on_schedule (if is_tick e then Suc n else n) s'"
proof (cases e)
  case Tick
  then have s': "s' = (callback s)\<lparr>next_due := next_due s + intervalMs\<rparr>"
    using assms(2) by (simp split: if_splits)
  show ?thesis
  proof (cases "stopped s")
    case True
    then show ?thesis
      using assms(1) Tick by (simp add: s' callback_def on_schedule_def)
  next
    case False
    with assms(1) have len: "length (started s) = n" and due: "next_due s = intervalMs * Suc n"
      and st: "started s = map (\<lambda>k. intervalMs * Suc k) [0..<n]"
      by (auto simp: on_schedule_def)
    have "started s @ [next_due s] = map (\<lambda>k. intervalMs * Suc k) [0..<Suc n]"
      using st due by simp
    then show ?thesis
      using False Tick len due by (simp add: s' callback_def on_schedule_def)
  qed
next
  case (Settle i r)
  then have s': "s' = after_await p r (s\<lparr>in_flight := removeAll i (in_flight s)\<rparr>)"
    using assms(2) by (simp split: if_splits)
  have "stopped s \<Longrightarrow> stopped s'"
    unfolding s' by (rule after_await_stopped) simp
  then show ?thesis
    using assms(1) Settle by (auto simp: s' on_schedule_def after_await_frame)
next
  case Close
  then show ?thesis
    using assms by (auto simp: on_schedule_def clearInterval_def set_stopped_def)
qed

lemma on_schedule_run:
  "on_schedule n s \<Longrightarrow> run p evs s = Some s' \<Longrightarrow> on_schedule (n + length (filter is_tick evs)) s'"
proof (induction evs arbitrary: n s)
  case Nil
  then show ?case by simp
next
  case (Cons e evs)
  from Cons.prems(2) obtain t where t: "step p e s = Some t" and r: "run p evs t = Some s'"
    by (auto split: option.splits)
  from Cons.IH [OF on_schedule_step [OF Cons.prems(1) t] r] show ?case
    by (cases "is_tick e") simp_all
qed

text \<open>
  Claim C5, as the code has it. Subscribing registers the timer and begins no fetch.
  The \<open>k\<close>-th fetch is begun at \<open>2000 * k\<close> milliseconds, for \<open>k\<close> from 1, and a session
  that is not stopped has begun one fetch at every tick.
\<close>

theorem poll_schedule:
  assumes "run p evs (subscribe p) = Some s"
  shows "started (subscribe p) = []
       \<and> started s = map (\<lambda>k. 2000 * Suc k) [0..<length (started s)]
       \<and> length (started s) \<le> length (filter is_tick evs)
       \<and> (\<not> stopped s \<longrightarrow> length (started s) = length (filter is_tick evs))"
  using on_schedule_run [OF on_schedule_subscribe assms]
  by (simp add: on_schedule_def intervalMs_def subscribe_def)

theorem poll_schedule_witness:
  "\<exists>s. run Meshy [Tick, Settle 1 (Resolved (envelope ''IN_PROGRESS'')), Tick] (subscribe Meshy) = Some s
      \<and> \<not> stopped s \<and> started s = [2000, 4000]"
proof -
  let ?evs = "[Tick, Settle 1 (Resolved (envelope ''IN_PROGRESS'')), Tick]"
  have t: "\<not> is_terminal Meshy (Some (Prim (VStr ''IN_PROGRESS'')))"
    by (simp add: is_terminal_def)
  obtain s where s: "run Meshy ?evs (subscribe Meshy) = Some s" and ns: "\<not> stopped s"
    using t
    by (simp add: subscribe_def callback_def after_await_def status_property_def envelope_def
        res_write_def)
  note sched = poll_schedule [OF s]
  from sched ns have len: "length (started s) = 2"
    by simp
  from sched have st: "started s = map (\<lambda>k. 2000 * Suc k) [0..<length (started s)]"
    by (elim conjE)
  have "started s = [2000, 4000]"
    by (subst st) (simp add: len upt_rec)
  with s ns show ?thesis by blast
qed

text \<open>
  The claim as it was stated has the first fetch at the moment of subscription. No
  fetch is begun then; the first one is begun at the first tick, 2000 milliseconds
  later.
\<close>

theorem poll_schedule_counterexample:
  "started (subscribe Meshy) = [] \<and> in_flight (subscribe Meshy) = []
   \<and> map_option started (run Meshy [Tick] (subscribe Meshy)) = Some [2000]
   \<and> started (subscribe Fashn) = [] \<and> in_flight (subscribe Fashn) = []
   \<and> map_option started (run Fashn [Tick] (subscribe Fashn)) = Some [2000]"
  by (simp add: subscribe_def callback_def intervalMs_def)

end
